theory Spec2Isabelle
  imports Main "HOL-Library.Word"
begin

section \<open>Data model of file.c\<close>

text \<open>
  The file operations of osfs (file.c) on an LP64 kernel: \<open>loff_t\<close> is a signed and
  \<open>size_t\<close> an unsigned 64-bit integer, \<open>ssize_t\<close> a signed one. All three are
  \<open>64 word\<close>; \<open>+\<close> and \<open>-\<close> wrap, \<open><\<close> and \<open>\<le>\<close> compare unsigned, and a signed
  comparison goes through \<open>sint\<close>.
\<close>

type_synonym byte = "8 word"
type_synonym u32 = "32 word"
type_synonym loff_t = "64 word"
type_synonym size_t = "64 word"
type_synonym ssize_t = "64 word"
type_synonym timespec64 = "int \<times> int"

text \<open>
  \<open>struct osfs_inode\<close> is declared in osfs.h; the fields that file.c uses are
  taken as \<open>uint32_t\<close> (\<open>i_size\<close>, \<open>i_blocks\<close>, \<open>i_block\<close>) and \<open>struct timespec64\<close>
  (\<open>__i_mtime\<close>, \<open>__i_ctime\<close>).
\<close>

record osfs_inode =
  i_size :: u32
  i_blocks :: u32
  i_block :: u32
  i_mtime :: timespec64
  i_ctime :: timespec64

text \<open>
  Kernel memory is addressed by its byte offset from \<open>sb_info->data_blocks\<close>; the
  Storage Region starts at offset 0, and an offset outside it is other kernel memory.
\<close>

type_synonym memory = "int \<Rightarrow> byte"

text \<open>
  Everything one call of \<open>osfs_read\<close> or \<open>osfs_write\<close> can see or change:
  \<open>inode->i_private\<close>, \<open>inode->i_size\<close>, the dirty mark that \<open>mark_inode_dirty\<close>
  sets, the memory at \<open>sb_info->data_blocks\<close>, and the caller's cursor \<open>*ppos\<close>.
\<close>

record state =
  osfs_i :: osfs_inode
  inode_i_size :: loff_t
  inode_dirty :: bool
  data_blocks :: memory
  pos :: loff_t

datatype error = AllocationFailed int | EFAULT

section \<open>Collaborators outside file.c\<close>

text \<open>
  \<open>copy_to_user(buf, src, n)\<close> and \<open>copy_from_user(dst, buf, n)\<close> are kernel
  primitives. The user buffer of a read is given by \<open>cap\<close>, the number of bytes that
  can be stored at \<open>buf\<close>; the user buffer of a write by the list of the bytes that can
  be loaded from \<open>buf\<close>. A copy of \<open>n\<close> bytes succeeds when the user buffer holds \<open>n\<close>
  bytes and faults otherwise. The bytes of kernel memory that a copy of \<open>n\<close> bytes at the
  offset \<open>a\<close> touches are \<open>footprint a n\<close>.

  A faulting \<open>copy_from_user\<close> may have stored in its destination: the kernel copies
  what it can load and pads the rest with zero bytes, and it refuses a size above
  \<open>INT_MAX\<close> without storing. What a faulting copy leaves in its destination is
  therefore the parameter \<open>residue\<close>; outside the destination it changes nothing.
\<close>

definition footprint :: "int \<Rightarrow> size_t \<Rightarrow> int set" where
  "footprint a n = {a ..< a + uint n}"

definition load_bytes :: "memory \<Rightarrow> int \<Rightarrow> size_t \<Rightarrow> byte list" where
  "load_bytes mem src n = map (\<lambda>k. mem (src + int k)) [0..<unat n]"

definition store_bytes :: "memory \<Rightarrow> int \<Rightarrow> byte list \<Rightarrow> size_t \<Rightarrow> memory" where
  "store_bytes mem dst buf n =
     (\<lambda>a. if a \<in> footprint dst n then buf ! nat (a - dst) else mem a)"

definition copy_to_user :: "nat \<Rightarrow> memory \<Rightarrow> int \<Rightarrow> size_t \<Rightarrow> byte list option" where
  "copy_to_user cap mem src n =
     (if unat n \<le> cap then Some (load_bytes mem src n) else None)"

definition fault_bytes :: "memory \<Rightarrow> memory \<Rightarrow> int \<Rightarrow> size_t \<Rightarrow> memory" where
  "fault_bytes residue mem dst n = (\<lambda>a. if a \<in> footprint dst n then residue a else mem a)"

text \<open>\<open>Inr\<close> is the memory after a complete copy, \<open>Inl\<close> the memory after a fault.\<close>

definition copy_from_user ::
  "memory \<Rightarrow> memory \<Rightarrow> int \<Rightarrow> byte list \<Rightarrow> size_t \<Rightarrow> memory + memory" where
  "copy_from_user residue mem dst buf n =
     (if unat n \<le> length buf then Inr (store_bytes mem dst buf n)
      else Inl (fault_bytes residue mem dst n))"

text \<open>
  The largest size that the kernel's \<open>copy_from_user\<close> and \<open>copy_to_user\<close> accept; a
  larger one is refused before any byte is copied.
\<close>

definition INT_MAX :: nat where
  "INT_MAX = 2147483647"

text \<open>
  Modelled from the spec: \<open>osfs_alloc_data_block\<close> is defined outside file.c. Its call
  is given by the pair \<open>(ret, b)\<close> of what it returns and the block number it stores
  through \<open>&osfs_inode->i_block\<close> when it returns 0; following section 6 of the
  specification (\<open>block_index | AllocationExhausted\<close>) a failing call stores nothing.
\<close>

type_synonym alloc_outcome = "int \<times> u32"

section \<open>osfs_read\<close>

text \<open>
  \<open>data_block = sb_info->data_blocks + osfs_inode->i_block * BLOCK_SIZE + *ppos\<close>,
  as an offset from \<open>data_blocks\<close>. \<open>BLOCK_SIZE\<close> is a macro of a header outside
  file.c, a positive \<open>int\<close> constant, and a parameter here; the product is computed
  in \<open>unsigned int\<close>.
\<close>

definition data_block :: "nat \<Rightarrow> osfs_inode \<Rightarrow> loff_t \<Rightarrow> int" where
  "data_block BLOCK_SIZE oi ppos = uint (i_block oi * of_nat BLOCK_SIZE) + sint ppos"

text \<open>Lines 33-34: \<open>if (*ppos + len > i_size) len = i_size - *ppos\<close>.\<close>

definition read_len :: "osfs_inode \<Rightarrow> loff_t \<Rightarrow> size_t \<Rightarrow> size_t" where
  "read_len oi ppos len =
     (if ppos + len > ucast (i_size oi) then ucast (i_size oi) - ppos else len)"

text \<open>
  The result is the returned \<open>ssize_t\<close> or the error, the bytes stored in the user
  buffer, and the state after the call.
\<close>

definition osfs_read :: "nat \<Rightarrow> state \<Rightarrow> nat \<Rightarrow> size_t \<Rightarrow> (error + ssize_t) \<times> byte list \<times> state" where
  "osfs_read BLOCK_SIZE s cap len =
     (if i_blocks (osfs_i s) = 0 then (Inr 0, [], s)
      else if uint (i_size (osfs_i s)) \<le> sint (pos s) then (Inr 0, [], s)
      else
        let len' = read_len (osfs_i s) (pos s) len;
            src = data_block BLOCK_SIZE (osfs_i s) (pos s)
        in (case copy_to_user cap (data_blocks s) src len' of
              None \<Rightarrow> (Inl EFAULT, [], s)
            | Some bs \<Rightarrow> (Inr len', bs, s\<lparr>pos := pos s + len'\<rparr>)))"

section \<open>osfs_write\<close>

text \<open>Step 2, lines 72-80: allocate the block of a file that has none.\<close>

definition alloc_step :: "alloc_outcome \<Rightarrow> state \<Rightarrow> int + state" where
  "alloc_step alloc s =
     (if i_blocks (osfs_i s) = 0
      then (if fst alloc \<noteq> 0 then Inl (fst alloc)
            else Inr (s\<lparr>osfs_i := (osfs_i s)\<lparr>i_block := snd alloc, i_blocks := 1\<rparr>\<rparr>))
      else Inr s)"

text \<open>Step 3, lines 84-86: \<open>if (*ppos + len > BLOCK_SIZE) len = BLOCK_SIZE - *ppos\<close>.\<close>

definition write_len :: "nat \<Rightarrow> loff_t \<Rightarrow> size_t \<Rightarrow> size_t" where
  "write_len BLOCK_SIZE ppos len =
     (if ppos + len > of_nat BLOCK_SIZE then of_nat BLOCK_SIZE - ppos else len)"

text \<open>
  Step 5, lines 98-109, after a copy of \<open>len\<close> bytes that left the memory \<open>mem\<close>;
  \<open>t1\<close> and \<open>t2\<close> are the two readings of \<open>current_time\<close>.
\<close>

definition update_attrs :: "timespec64 \<Rightarrow> timespec64 \<Rightarrow> memory \<Rightarrow> size_t \<Rightarrow> state \<Rightarrow> state" where
  "update_attrs t1 t2 mem len s =
     (let s2 = s\<lparr>data_blocks := mem, pos := pos s + len\<rparr>;
          s3 = (if uint (i_size (osfs_i s2)) < sint (pos s2)
                then s2\<lparr>osfs_i := (osfs_i s2)\<lparr>i_size := ucast (pos s2)\<rparr>,
                        inode_i_size := pos s2\<rparr>
                else s2)
      in s3\<lparr>osfs_i := (osfs_i s3)\<lparr>i_mtime := t1, i_ctime := t2\<rparr>, inode_dirty := True\<rparr>)"

definition osfs_write ::
  "nat \<Rightarrow> alloc_outcome \<Rightarrow> timespec64 \<Rightarrow> timespec64 \<Rightarrow> memory \<Rightarrow> state \<Rightarrow> byte list \<Rightarrow> size_t
     \<Rightarrow> (error + ssize_t) \<times> state" where
  "osfs_write BLOCK_SIZE alloc t1 t2 residue s buf len =
     (case alloc_step alloc s of
        Inl ret \<Rightarrow> (Inl (AllocationFailed ret), s)
      | Inr s1 \<Rightarrow>
          let len' = write_len BLOCK_SIZE (pos s1) len;
              dst = data_block BLOCK_SIZE (osfs_i s1) (pos s1)
          in (case copy_from_user residue (data_blocks s1) dst buf len' of
                Inl mem \<Rightarrow> (Inl EFAULT, s1\<lparr>data_blocks := mem\<rparr>)
              | Inr mem \<Rightarrow> (Inr len', update_attrs t1 t2 mem len' s1)))"

section \<open>Predicates and states of the properties\<close>

text \<open>The invariant of the File Record: \<open>i_size\<close> is at most the block size.\<close>

definition size_ok :: "nat \<Rightarrow> state \<Rightarrow> bool" where
  "size_ok BLOCK_SIZE s \<longleftrightarrow> uint (i_size (osfs_i s)) \<le> int BLOCK_SIZE"

text \<open>The offsets of the block of a file: \<open>[i_block * BLOCK_SIZE, i_block * BLOCK_SIZE + BLOCK_SIZE)\<close>.\<close>

definition block_range :: "nat \<Rightarrow> osfs_inode \<Rightarrow> int set" where
  "block_range BLOCK_SIZE oi =
     {uint (i_block oi) * int BLOCK_SIZE ..< uint (i_block oi) * int BLOCK_SIZE + int BLOCK_SIZE}"

text \<open>A file as it is created: no block, size 0, cursor 0, over zeroed memory.\<close>

definition fresh_inode :: osfs_inode where
  "fresh_inode = \<lparr>i_size = 0, i_blocks = 0, i_block = 0, i_mtime = (0, 0), i_ctime = (0, 0)\<rparr>"

definition fresh_file :: state where
  "fresh_file = \<lparr>osfs_i = fresh_inode, inode_i_size = 0, inode_dirty = False,
       data_blocks = (\<lambda>a. 0), pos = 0\<rparr>"

text \<open>
  The same file after the three bytes 97, 98, 99 were written at cursor 0 into block 7
  of 4096-byte blocks, at the times \<open>(5, 0)\<close> and \<open>(6, 0)\<close>.
\<close>

definition abc_file :: state where
  "abc_file =
     \<lparr>osfs_i = \<lparr>i_size = 3, i_blocks = 1, i_block = 7, i_mtime = (5, 0), i_ctime = (6, 0)\<rparr>,
      inode_i_size = 3, inode_dirty = True,
      data_blocks = store_bytes (\<lambda>a. 0) 28672 [97, 98, 99] 3, pos = 3\<rparr>"

section \<open>Signed and unsigned readings of 64-bit values\<close>

lemma sint64_cases:
  "sint (w :: 64 word) = (if uint w < 2 ^ 63 then uint w else uint w - 2 ^ 64)"
proof -
  have s: "sint w = (uint w + 2 ^ 63) mod 2 ^ 64 - 2 ^ 63"
    using int_word_sint [of "uint w", where ?'a = 64] by simp
  have r: "0 \<le> uint w" "uint w < 2 ^ 64"
    using uint_lt2p [of w] by simp_all
  show ?thesis
  proof (cases "uint w < 2 ^ 63")
    case True
    with r have "(uint w + 2 ^ 63) mod 2 ^ 64 = uint w + 2 ^ 63"
      by (simp add: mod_pos_pos_trivial)
    with s True show ?thesis by simp
  next
    case False
    have "(uint w + 2 ^ 63) mod 2 ^ 64 = (uint w + 2 ^ 63 - 2 ^ 64) mod 2 ^ 64"
      by (simp only: minus_mod_self2)
    also from r False have "\<dots> = uint w + 2 ^ 63 - 2 ^ 64"
      by (simp add: mod_pos_pos_trivial)
    finally show ?thesis using s False by simp
  qed
qed

lemma sint_nonneg_uint:
  assumes "0 \<le> sint (p :: 64 word)"
  shows "sint p = uint p" and "uint p < 2 ^ 63"
proof -
  have r: "y < 2 ^ 63"
    if "0 \<le> (if y < 2 ^ 63 then y else y - 2 ^ 64)" and "y < 2 ^ 64" for y :: int
    using that by (simp split: if_splits)
  have "0 \<le> (if uint p < 2 ^ 63 then uint p else uint p - 2 ^ 64)"
    using assms by (simp only: sint64_cases)
  moreover have "uint p < 2 ^ 64"
    using uint_lt2p [of p] by simp
  ultimately show "uint p < 2 ^ 63"
    by (rule r)
  then show "sint p = uint p"
    by (simp add: sint64_cases)
qed

lemma uint_le_sint:
  assumes "uint (c :: 64 word) \<le> sint (a :: 64 word)"
  shows "uint c \<le> uint a" and "uint a < 2 ^ 63"
proof -
  have r: "x \<le> y \<and> y < 2 ^ 63"
    if "0 \<le> x" and "y < 2 ^ 64" and "x \<le> (if y < 2 ^ 63 then y else y - 2 ^ 64)"
    for x y :: int
    using that by (simp split: if_splits)
  have "uint c \<le> uint a \<and> uint a < 2 ^ 63"
  proof (rule r)
    show "0 \<le> uint c" by simp
    show "uint a < 2 ^ 64" using uint_lt2p [of a] by simp
    show "uint c \<le> (if uint a < 2 ^ 63 then uint a else uint a - 2 ^ 64)"
      using assms by (simp only: sint64_cases)
  qed
  then show "uint c \<le> uint a" and "uint a < 2 ^ 63"
    by simp_all
qed

lemma uint_lt_of_unat_le:
  assumes "unat (n :: 64 word) \<le> m" and "m < 2 ^ 63"
  shows "uint n < 2 ^ 63"
proof -
  from assms have "unat n < 2 ^ 63"
    by simp
  then have "int (unat n) < int (2 ^ 63)"
    by (simp only: of_nat_less_iff)
  then show ?thesis
    by simp
qed

lemma uint_add_no_wrap:
  "uint (a :: 64 word) + uint b < 2 ^ 64 \<Longrightarrow> uint (a + b) = uint a + uint b"
  by (simp add: uint_plus_if')

lemma uint_ucast_i_size: "uint (ucast (z :: 32 word) :: 64 word) = uint z"
  by (simp add: uint_up_ucast is_up)

lemma uint_of_nat_BLOCK_SIZE:
  "BLOCK_SIZE < 2 ^ 31 \<Longrightarrow> uint (of_nat BLOCK_SIZE :: 64 word) = int BLOCK_SIZE"
  by (simp add: uint_nat unat_of_nat)

lemma uint_block_offset:
  assumes "BLOCK_SIZE < 2 ^ 31" and "uint (b :: 32 word) * int BLOCK_SIZE < 2 ^ 32"
  shows "uint (b * of_nat BLOCK_SIZE) = uint b * int BLOCK_SIZE"
proof -
  have "uint (of_nat BLOCK_SIZE :: 32 word) = int BLOCK_SIZE"
    using assms(1) by (simp add: uint_nat unat_of_nat)
  then have "uint (b * of_nat BLOCK_SIZE) = (uint b * int BLOCK_SIZE) mod 2 ^ 32"
    by (simp add: uint_word_ariths)
  with assms(2) show ?thesis
    by (simp add: mod_pos_pos_trivial)
qed

lemma uint_minus_one64: "uint (- 1 :: 64 word) = 18446744073709551615"
  by (simp add: uint_word_ariths)

lemma unat_minus_one64: "unat (- 1 :: 64 word) = 18446744073709551615"
proof -
  have "unat (- 1 :: 64 word) = nat (uint (- 1 :: 64 word))"
    by (rule unat_eq_nat_uint)
  then show ?thesis
    by (simp only: uint_minus_one64)
qed

section \<open>What is stored can be loaded\<close>

lemma load_store_bytes:
  assumes "unat n \<le> length buf"
  shows "load_bytes (store_bytes mem dst buf n) dst n = take (unat n) buf"
proof (rule nth_equalityI)
  show "length (load_bytes (store_bytes mem dst buf n) dst n) = length (take (unat n) buf)"
    using assms by (simp add: load_bytes_def)
next
  fix k
  assume "k < length (load_bytes (store_bytes mem dst buf n) dst n)"
  then have k: "k < unat n"
    by (simp add: load_bytes_def)
  then have "int k < uint n"
    using uint_nat [of n] by linarith
  then have "dst + int k \<in> footprint dst n"
    by (simp add: footprint_def)
  with k show "load_bytes (store_bytes mem dst buf n) dst n ! k = take (unat n) buf ! k"
    by (simp add: load_bytes_def store_bytes_def)
qed

lemma take_load_bytes:
  assumes "n \<le> m"
  shows "take (unat n) (load_bytes mem src m) = load_bytes mem src n"
proof -
  have "unat n \<le> unat m"
    using assms by (simp add: word_le_nat_alt)
  then show ?thesis
    by (simp add: load_bytes_def take_map)
qed

section \<open>The clipped lengths\<close>

text \<open>
  The cursor that a write leaves is the sum that line 84 compares with \<open>BLOCK_SIZE\<close>,
  or \<open>BLOCK_SIZE\<close> itself: it never exceeds the block size.
\<close>

lemma write_len_new_pos: "ppos + write_len BLOCK_SIZE ppos len \<le> of_nat BLOCK_SIZE"
  by (simp add: write_len_def not_less)

lemma new_pos_bounds:
  assumes "BLOCK_SIZE < 2 ^ 31" and "(p :: 64 word) \<le> of_nat BLOCK_SIZE"
  shows "uint p \<le> int BLOCK_SIZE" and "sint p = uint p"
    and "uint (ucast p :: 32 word) = uint p"
proof -
  show le: "uint p \<le> int BLOCK_SIZE"
    using assms by (simp add: word_le_def uint_of_nat_BLOCK_SIZE)
  with assms(1) show "sint p = uint p"
    by (simp add: sint64_cases)
  have "uint p < 2 ^ 32"
    using le assms(1) by simp
  then show "uint (ucast p :: 32 word) = uint p"
    by (simp add: unsigned_ucast_eq take_bit_int_eq_self)
qed

text \<open>
  At a cursor inside the block, or at its end, the write length is the smaller of the
  requested length and the room left in the block.
\<close>

lemma write_len_in_block:
  assumes "BLOCK_SIZE < 2 ^ 31" and "0 \<le> sint p" and "sint p \<le> int BLOCK_SIZE"
    and "uint p + uint len < 2 ^ 64"
  shows "uint (write_len BLOCK_SIZE p len) = min (uint len) (int BLOCK_SIZE - sint p)"
proof -
  note up = sint_nonneg_uint [OF assms(2)]
  note B = uint_of_nat_BLOCK_SIZE [OF assms(1)]
  have sum: "uint (p + len) = uint p + uint len"
    using assms(4) by (rule uint_add_no_wrap)
  show ?thesis
  proof (cases "p + len > of_nat BLOCK_SIZE")
    case True
    then have "int BLOCK_SIZE < uint p + uint len"
      by (simp add: word_less_def B sum)
    moreover have "uint (of_nat BLOCK_SIZE - p :: 64 word) = int BLOCK_SIZE - uint p"
      using assms(3) up uint_sub_lem [of p "of_nat BLOCK_SIZE"]
      by (simp add: B)
    ultimately show ?thesis
      using True up by (simp add: write_len_def)
  next
    case False
    then have "uint p + uint len \<le> int BLOCK_SIZE"
      by (simp add: word_less_def B sum not_less)
    with False up show ?thesis
      by (simp add: write_len_def)
  qed
qed

text \<open>
  At a cursor beyond the block, line 85 computes \<open>BLOCK_SIZE - *ppos < 0\<close> and stores
  it in the unsigned \<open>len\<close>: the write length is \<open>2 ^ 64\<close> less the distance of the
  cursor from the end of the block, whatever length was requested.
\<close>

lemma write_len_past_block:
  assumes "BLOCK_SIZE < 2 ^ 31" and "int BLOCK_SIZE < sint p" and "uint p + uint len < 2 ^ 64"
  shows "uint (write_len BLOCK_SIZE p len) = 2 ^ 64 - (sint p - int BLOCK_SIZE)"
proof -
  have "0 \<le> sint p"
    using assms(2) by simp
  note up = sint_nonneg_uint [OF this]
  note B = uint_of_nat_BLOCK_SIZE [OF assms(1)]
  have sum: "uint (p + len) = uint p + uint len"
    using assms(3) by (rule uint_add_no_wrap)
  have "int BLOCK_SIZE < uint p + uint len"
    using assms(2) up uint_ge_0 [of len] by linarith
  then have "p + len > of_nat BLOCK_SIZE"
    by (simp add: word_less_def B sum)
  moreover have "uint (of_nat BLOCK_SIZE - p :: 64 word) = int BLOCK_SIZE - uint p + 2 ^ 64"
    using assms(2) up by (simp add: uint_sub_if' B)
  ultimately show ?thesis
    using up by (simp add: write_len_def)
qed

lemma write_len_examples:
  "write_len 4096 0 500 = 500" "write_len 4096 4000 200 = 96" "write_len 4096 4096 200 = 0"
  by (simp_all add: write_len_def)

text \<open>
  At a cursor inside the file the read length is the smaller of the requested length
  and the bytes left in the file, provided the sum of line 33 does not wrap.
\<close>

lemma read_len_min:
  assumes "0 \<le> sint p" and "sint p < uint (i_size oi)" and "uint p + uint len < 2 ^ 64"
  shows "uint (read_len oi p len) = min (uint len) (uint (i_size oi) - sint p)"
proof -
  note up = sint_nonneg_uint [OF assms(1)]
  have sum: "uint (p + len) = uint p + uint len"
    using assms(3) by (rule uint_add_no_wrap)
  show ?thesis
  proof (cases "p + len > ucast (i_size oi)")
    case True
    then have "uint (i_size oi) < uint p + uint len"
      by (simp add: word_less_def uint_ucast_i_size sum)
    moreover have "uint (ucast (i_size oi) - p :: 64 word) = uint (i_size oi) - uint p"
      using assms(2) up uint_sub_lem [of p "ucast (i_size oi)"]
      by (simp add: uint_ucast_i_size)
    ultimately show ?thesis
      using True up by (simp add: read_len_def)
  next
    case False
    then have "uint p + uint len \<le> uint (i_size oi)"
      by (simp add: word_less_def uint_ucast_i_size sum not_less)
    with False up show ?thesis
      by (simp add: read_len_def)
  qed
qed

lemma sint_new_pos_read:
  assumes "0 \<le> sint p" and "sint p < uint (i_size oi)" and "uint p + uint len < 2 ^ 64"
  shows "sint (p + read_len oi p len) = sint p + uint (read_len oi p len)"
proof -
  note up = sint_nonneg_uint [OF assms(1)]
  have "uint (read_len oi p len) \<le> uint (i_size oi) - sint p"
    by (simp add: read_len_min [OF assms])
  moreover have "uint (i_size oi) < 2 ^ 32"
    using uint_lt2p [of "i_size oi"] by simp
  ultimately have small: "uint p + uint (read_len oi p len) < 2 ^ 32"
    using up by simp
  then have "uint p + uint (read_len oi p len) < 2 ^ 64"
    by simp
  then have "uint (p + read_len oi p len) = uint p + uint (read_len oi p len)"
    by (rule uint_add_no_wrap)
  with small up show ?thesis
    by (simp add: sint64_cases)
qed

text \<open>
  When the sum of line 33 wraps, the length stays as requested, at least
  \<open>2 ^ 64 - 2 ^ 32\<close>: no user buffer holds that much, so such a read faults.
\<close>

lemma read_success_no_wrap:
  assumes "0 \<le> sint p" and "sint p < uint (i_size oi)"
    and "unat (read_len oi p len) \<le> cap" and "cap < 2 ^ 63"
  shows "uint p + uint len < 2 ^ 64"
proof (rule ccontr)
  assume "\<not> uint p + uint len < 2 ^ 64"
  then have wrap: "2 ^ 64 \<le> uint p + uint len"
    by simp
  note up = sint_nonneg_uint [OF assms(1)]
  have z: "uint (i_size oi) < 2 ^ 32"
    using uint_lt2p [of "i_size oi"] by simp
  have "uint (p + len) = uint p + uint len - 2 ^ 64"
    using wrap by (simp add: uint_plus_if')
  moreover have "uint len < 2 ^ 64"
    using uint_lt2p [of len] by simp
  ultimately have "uint (p + len) < uint p"
    by simp
  then have "uint (p + len) \<le> uint (ucast (i_size oi) :: 64 word)"
    using assms(2) up by (simp add: uint_ucast_i_size)
  then have "\<not> p + len > ucast (i_size oi)"
    by (simp add: word_le_def not_less)
  then have "read_len oi p len = len"
    by (simp add: read_len_def)
  with assms(3,4) have "uint len < 2 ^ 63"
    using uint_lt_of_unat_le [of len cap] by simp
  with wrap up show False
    by simp
qed

text \<open>
  A cursor that was advanced by \<open>n\<close> bytes to a position inside the file has at least
  \<open>n\<close> bytes of the file before it.
\<close>

lemma written_le_read_len:
  assumes "uint (n :: 64 word) < 2 ^ 63" and "p + n \<le> ucast (z :: 32 word)"
    and "sint p < uint z"
  shows "n \<le> ucast z - p"
proof -
  have P: "0 \<le> uint p" "uint p < 2 ^ 64" and N: "0 \<le> uint n"
    using uint_lt2p [of p] by simp_all
  have Z: "uint z < 2 ^ 32"
    using uint_lt2p [of z] by simp
  have q: "(if uint p + uint n < 2 ^ 64 then uint p + uint n else uint p + uint n - 2 ^ 64)
             \<le> uint z"
  proof -
    have "uint (p + n) \<le> uint z"
      using assms(2) by (simp add: word_le_def uint_ucast_i_size)
    then show ?thesis
      by (simp add: uint_plus_if' split: if_splits)
  qed
  have s: "(if uint p < 2 ^ 63 then uint p else uint p - 2 ^ 64) < uint z"
    using assms(3) by (simp only: sint64_cases)
  have r: "N \<le> (if P \<le> Z then Z - P else Z - P + 2 ^ 64)"
    if "0 \<le> P" "P < 2 ^ 64" "0 \<le> N" "N < 2 ^ 63" "Z < 2 ^ 32"
      "(if P + N < 2 ^ 64 then P + N else P + N - 2 ^ 64) \<le> Z"
      "(if P < 2 ^ 63 then P else P - 2 ^ 64) < Z"
    for P N Z :: int
    using that by (simp split: if_splits)
  have "uint n \<le> (if uint p \<le> uint z then uint z - uint p else uint z - uint p + 2 ^ 64)"
    by (rule r [OF P N assms(1) Z q s])
  then show ?thesis
    by (simp add: word_le_def uint_sub_if' uint_ucast_i_size split: if_splits)
qed

section \<open>Copies inside the block\<close>

lemma footprint_in_block:
  assumes "BLOCK_SIZE < 2 ^ 31" and "uint (i_block oi) * int BLOCK_SIZE < 2 ^ 32"
    and "0 \<le> sint p" and "sint p + uint n \<le> int BLOCK_SIZE"
  shows "footprint (data_block BLOCK_SIZE oi p) n \<subseteq> block_range BLOCK_SIZE oi"
  using assms(3,4)
  by (auto simp: footprint_def block_range_def data_block_def uint_block_offset [OF assms(1,2)])

text \<open>
  A write at a cursor from 0 to \<open>BLOCK_SIZE\<close> and a read of a file whose size is at most
  \<open>BLOCK_SIZE\<close> ask for a copy inside the block of the file.
\<close>

lemma write_footprint_in_block:
  assumes "BLOCK_SIZE < 2 ^ 31" and "uint (i_block oi) * int BLOCK_SIZE < 2 ^ 32"
    and "0 \<le> sint p" and "sint p \<le> int BLOCK_SIZE" and "uint p + uint len < 2 ^ 64"
  shows "footprint (data_block BLOCK_SIZE oi p) (write_len BLOCK_SIZE p len)
           \<subseteq> block_range BLOCK_SIZE oi"
proof (rule footprint_in_block [OF assms(1,2,3)])
  show "sint p + uint (write_len BLOCK_SIZE p len) \<le> int BLOCK_SIZE"
    by (simp add: write_len_in_block [OF assms(1,3,4,5)])
qed

lemma read_footprint_in_block:
  assumes "BLOCK_SIZE < 2 ^ 31" and "uint (i_block oi) * int BLOCK_SIZE < 2 ^ 32"
    and "uint (i_size oi) \<le> int BLOCK_SIZE"
    and "0 \<le> sint p" and "sint p < uint (i_size oi)" and "uint p + uint len < 2 ^ 64"
  shows "footprint (data_block BLOCK_SIZE oi p) (read_len oi p len)
           \<subseteq> block_range BLOCK_SIZE oi"
proof (rule footprint_in_block [OF assms(1,2,4)])
  show "sint p + uint (read_len oi p len) \<le> int BLOCK_SIZE"
    using assms(3) by (simp add: read_len_min [OF assms(4,5,6)])
qed

section \<open>The branches of the two operations\<close>

lemma alloc_step_keeps:
  "alloc_step alloc s = Inr s1 \<Longrightarrow>
     i_size (osfs_i s1) = i_size (osfs_i s) \<and> pos s1 = pos s \<and> data_blocks s1 = data_blocks s"
  by (auto simp: alloc_step_def split: if_splits)

lemma alloc_step_allocated:
  "alloc_step alloc s = Inr s1 \<Longrightarrow> i_blocks (osfs_i s1) \<noteq> 0"
  by (auto simp: alloc_step_def split: if_splits)

lemma data_block_i_block:
  "i_block oi = i_block oi' \<Longrightarrow> data_block BLOCK_SIZE oi p = data_block BLOCK_SIZE oi' p"
  by (simp add: data_block_def)

lemma update_attrs_fields:
  "pos (update_attrs t1 t2 mem n s) = pos s + n"
  "data_blocks (update_attrs t1 t2 mem n s) = mem"
  "i_size (osfs_i (update_attrs t1 t2 mem n s)) =
     (if uint (i_size (osfs_i s)) < sint (pos s + n) then ucast (pos s + n) else i_size (osfs_i s))"
  "i_blocks (osfs_i (update_attrs t1 t2 mem n s)) = i_blocks (osfs_i s)"
  "i_block (osfs_i (update_attrs t1 t2 mem n s)) = i_block (osfs_i s)"
  by (simp_all add: update_attrs_def Let_def)

lemma osfs_read_osfs_i: "osfs_i (snd (snd (osfs_read BLOCK_SIZE s cap rlen))) = osfs_i s"
  by (cases "copy_to_user cap (data_blocks s) (data_block BLOCK_SIZE (osfs_i s) (pos s))
               (read_len (osfs_i s) (pos s) rlen)")
     (simp_all add: osfs_read_def Let_def)

lemma osfs_read_in_file:
  assumes "i_blocks (osfs_i s) \<noteq> 0" and "sint (pos s) < uint (i_size (osfs_i s))"
  shows "osfs_read BLOCK_SIZE s cap len =
     (if unat (read_len (osfs_i s) (pos s) len) \<le> cap
      then (Inr (read_len (osfs_i s) (pos s) len),
            load_bytes (data_blocks s) (data_block BLOCK_SIZE (osfs_i s) (pos s))
              (read_len (osfs_i s) (pos s) len),
            s\<lparr>pos := pos s + read_len (osfs_i s) (pos s) len\<rparr>)
      else (Inl EFAULT, [], s))"
  using assms by (simp add: osfs_read_def copy_to_user_def Let_def)

lemma osfs_write_cases:
  obtains (alloc_failed) ret where "alloc_step alloc s = Inl ret"
      "osfs_write BLOCK_SIZE alloc t1 t2 residue s buf len = (Inl (AllocationFailed ret), s)"
  | (copy_fault) s1 where "alloc_step alloc s = Inr s1"
      "length buf < unat (write_len BLOCK_SIZE (pos s) len)"
      "osfs_write BLOCK_SIZE alloc t1 t2 residue s buf len =
         (Inl EFAULT,
          s1\<lparr>data_blocks := fault_bytes residue (data_blocks s)
            (data_block BLOCK_SIZE (osfs_i s1) (pos s)) (write_len BLOCK_SIZE (pos s) len)\<rparr>)"
  | (written) s1 where "alloc_step alloc s = Inr s1"
      "unat (write_len BLOCK_SIZE (pos s) len) \<le> length buf"
      "osfs_write BLOCK_SIZE alloc t1 t2 residue s buf len =
         (Inr (write_len BLOCK_SIZE (pos s) len),
          update_attrs t1 t2
            (store_bytes (data_blocks s) (data_block BLOCK_SIZE (osfs_i s1) (pos s)) buf
               (write_len BLOCK_SIZE (pos s) len))
            (write_len BLOCK_SIZE (pos s) len) s1)"
proof (cases "alloc_step alloc s")
  case (Inl ret)
  then show ?thesis
    using alloc_failed by (simp add: osfs_write_def)
next
  case (Inr s1)
  note k = alloc_step_keeps [OF Inr]
  show ?thesis
  proof (cases "unat (write_len BLOCK_SIZE (pos s) len) \<le> length buf")
    case True
    with Inr k show ?thesis
      using written [of s1] by (simp add: osfs_write_def copy_from_user_def Let_def)
  next
    case False
    with Inr k show ?thesis
      using copy_fault [of s1] by (simp add: osfs_write_def copy_from_user_def Let_def)
  qed
qed

text \<open>The state that a successful write leaves.\<close>

lemma osfs_write_written:
  assumes "BLOCK_SIZE < 2 ^ 31"
    and "osfs_write BLOCK_SIZE alloc t1 t2 residue s buf len = (Inr n, s')"
  shows "unat n \<le> length buf"
    and "pos s' = pos s + n"
    and "data_blocks s' =
           store_bytes (data_blocks s) (data_block BLOCK_SIZE (osfs_i s') (pos s)) buf n"
    and "i_blocks (osfs_i s') \<noteq> 0"
    and "pos s + n \<le> ucast (i_size (osfs_i s'))"
proof -
  have "unat n \<le> length buf
      \<and> pos s' = pos s + n
      \<and> data_blocks s' =
           store_bytes (data_blocks s) (data_block BLOCK_SIZE (osfs_i s') (pos s)) buf n
      \<and> i_blocks (osfs_i s') \<noteq> 0
      \<and> pos s + n \<le> ucast (i_size (osfs_i s'))"
  proof (cases rule: osfs_write_cases [of alloc s BLOCK_SIZE t1 t2 residue buf len])
    case (alloc_failed ret)
    with assms(2) show ?thesis by simp
  next
    case (copy_fault s1)
    with assms(2) show ?thesis by simp
  next
    case (written s1)
    note k = alloc_step_keeps [OF written(1)]
    define mem where
      "mem = store_bytes (data_blocks s) (data_block BLOCK_SIZE (osfs_i s1) (pos s)) buf n"
    from written(3) assms(2) have n: "n = write_len BLOCK_SIZE (pos s) len"
      and s': "s' = update_attrs t1 t2 mem n s1"
      by (simp_all add: mem_def)
    have q: "pos s + n \<le> of_nat BLOCK_SIZE"
      unfolding n by (rule write_len_new_pos)
    note b = new_pos_bounds [OF assms(1) q]
    have blk: "i_block (osfs_i s') = i_block (osfs_i s1)"
      by (simp add: s' update_attrs_fields)
    have size': "uint (i_size (osfs_i s')) = max (uint (i_size (osfs_i s))) (uint (pos s + n))"
      using k b by (simp add: s' update_attrs_fields)
    have "uint (pos s + n) \<le> uint (ucast (i_size (osfs_i s')) :: 64 word)"
      using size' by (simp add: uint_ucast_i_size)
    then have "pos s + n \<le> ucast (i_size (osfs_i s'))"
      by (simp add: word_le_def)
    moreover have "data_blocks s' =
        store_bytes (data_blocks s) (data_block BLOCK_SIZE (osfs_i s') (pos s)) buf n"
      using data_block_i_block [OF blk, of BLOCK_SIZE "pos s"]
      by (simp add: s' update_attrs_fields mem_def)
    moreover have "i_blocks (osfs_i s') \<noteq> 0"
      using alloc_step_allocated [OF written(1)] by (simp add: s' update_attrs_fields)
    moreover have "pos s' = pos s + n"
      using k by (simp add: s' update_attrs_fields)
    ultimately show ?thesis
      using written(2) n by simp
  qed
  then show "unat n \<le> length buf"
    and "pos s' = pos s + n"
    and "data_blocks s' =
           store_bytes (data_blocks s) (data_block BLOCK_SIZE (osfs_i s') (pos s)) buf n"
    and "i_blocks (osfs_i s') \<noteq> 0"
    and "pos s + n \<le> ucast (i_size (osfs_i s'))"
    by simp_all
qed

text \<open>
  A write that succeeds, from a user buffer of less than \<open>2 ^ 63\<close> bytes, started at a
  cursor of at most \<open>BLOCK_SIZE\<close> and stored at most \<open>BLOCK_SIZE - cursor\<close> bytes; when
  the cursor was not negative it stored them inside the block of the file.
\<close>

lemma written_within_block:
  assumes "BLOCK_SIZE < 2 ^ 31" and "length buf < 2 ^ 63"
    and "osfs_write BLOCK_SIZE alloc t1 t2 residue s buf len = (Inr n, s')"
  shows "uint n \<le> int BLOCK_SIZE - sint (pos s)" and "sint (pos s) \<le> int BLOCK_SIZE"
proof -
  note w = osfs_write_written [OF assms(1,3)]
  have nsmall: "uint n < 2 ^ 63"
    using w(1) assms(2) by (rule uint_lt_of_unat_le)
  have "n = write_len BLOCK_SIZE (pos s) len"
    using assms(3)
    by (cases rule: osfs_write_cases [of alloc s BLOCK_SIZE t1 t2 residue buf len]) simp_all
  then have "pos s + n \<le> of_nat BLOCK_SIZE"
    by (simp add: write_len_new_pos)
  then have "uint (pos s + n) \<le> int BLOCK_SIZE"
    by (rule new_pos_bounds(1) [OF assms(1)])
  then have q: "(if uint (pos s) + uint n < 2 ^ 64 then uint (pos s) + uint n
                 else uint (pos s) + uint n - 2 ^ 64) \<le> int BLOCK_SIZE"
    by (simp add: uint_plus_if' split: if_splits)
  have P: "0 \<le> uint (pos s)" "uint (pos s) < 2 ^ 64" and N: "0 \<le> uint n"
    using uint_lt2p [of "pos s"] by simp_all
  have B: "int BLOCK_SIZE < 2 ^ 31"
    using assms(1) by simp
  have r: "N \<le> B - (if P < 2 ^ 63 then P else P - 2 ^ 64)
           \<and> (if P < 2 ^ 63 then P else P - 2 ^ 64) \<le> B"
    if "0 \<le> P" "P < 2 ^ 64" "0 \<le> N" "N < 2 ^ 63" "B < 2 ^ 31"
      "(if P + N < 2 ^ 64 then P + N else P + N - 2 ^ 64) \<le> B"
    for P N B :: int
    using that by (simp split: if_splits)
  have "uint n \<le> int BLOCK_SIZE - (if uint (pos s) < 2 ^ 63 then uint (pos s) else uint (pos s) - 2 ^ 64)
      \<and> (if uint (pos s) < 2 ^ 63 then uint (pos s) else uint (pos s) - 2 ^ 64) \<le> int BLOCK_SIZE"
    by (rule r [OF P N nsmall B q])
  then show "uint n \<le> int BLOCK_SIZE - sint (pos s)" and "sint (pos s) \<le> int BLOCK_SIZE"
    by (simp_all only: sint64_cases)
qed

lemma written_footprint_in_block:
  assumes "BLOCK_SIZE < 2 ^ 31" and "length buf < 2 ^ 63"
    and "osfs_write BLOCK_SIZE alloc t1 t2 residue s buf len = (Inr n, s')"
    and "uint (i_block (osfs_i s')) * int BLOCK_SIZE < 2 ^ 32" and "0 \<le> sint (pos s)"
  shows "footprint (data_block BLOCK_SIZE (osfs_i s') (pos s)) n \<subseteq> block_range BLOCK_SIZE (osfs_i s')"
proof (rule footprint_in_block [OF assms(1,4,5)])
  show "sint (pos s) + uint n \<le> int BLOCK_SIZE"
    using written_within_block(1) [OF assms(1,2,3)] by simp
qed

section \<open>Two runs\<close>

lemma write_abc:
  "osfs_write 4096 (0, 7) (5, 0) (6, 0) (\<lambda>a. 0) fresh_file [97, 98, 99] 3 = (Inr 3, abc_file)"
  by (simp add: osfs_write_def alloc_step_def write_len_def data_block_def copy_from_user_def
      update_attrs_def Let_def fresh_file_def fresh_inode_def abc_file_def)

lemma read_abc:
  "osfs_read 4096 (abc_file\<lparr>pos := 1\<rparr>) 10 100 = (Inr 2, [98, 99], abc_file\<lparr>pos := 3\<rparr>)"
  by (simp add: osfs_read_def read_len_def data_block_def copy_to_user_def load_bytes_def
      store_bytes_def footprint_def Let_def abc_file_def upt_conv_Cons)

lemma read_abc_again:
  "osfs_read 4096 (abc_file\<lparr>pos := pos fresh_file\<rparr>) 10 100 = (Inr 3, [97, 98, 99], abc_file)"
  by (simp add: osfs_read_def read_len_def data_block_def copy_to_user_def load_bytes_def
      store_bytes_def footprint_def Let_def abc_file_def fresh_file_def upt_conv_Cons)

text \<open>
  A write of one byte at cursor 4097 to the file in block 7 of 4096-byte blocks, offsets
  28672 to 32767: the copy is asked for at offset 32769, past the block, and it faults;
  the byte at that offset is then the one that the faulting copy has left there.
\<close>

lemma write_past_block_request:
  "data_block 4096 (osfs_i abc_file) 4097 = 32769
   \<and> 32769 \<in> footprint (data_block 4096 (osfs_i abc_file) 4097) (write_len 4096 4097 1)
   \<and> 32769 \<notin> block_range 4096 (osfs_i abc_file)
   \<and> data_blocks
        (snd (osfs_write 4096 (0, 7) (5, 0) (6, 0) residue (abc_file\<lparr>pos := 4097\<rparr>) [100] 1))
        32769 = residue 32769"
  by (simp add: data_block_def write_len_def footprint_def block_range_def abc_file_def
      uint_minus_one64 unat_minus_one64 osfs_write_def alloc_step_def copy_from_user_def
      fault_bytes_def)

section \<open>The memory outside the block of the file\<close>

text \<open>
  A write length of less than \<open>2 ^ 63\<close> bytes ends at or before the end of the block,
  wherever the cursor is.
\<close>

lemma write_len_small:
  assumes "BLOCK_SIZE < 2 ^ 31" and "uint (write_len BLOCK_SIZE p len) < 2 ^ 63"
  shows "sint p + uint (write_len BLOCK_SIZE p len) \<le> int BLOCK_SIZE"
proof -
  define n where "n = write_len BLOCK_SIZE p len"
  have "p + n \<le> of_nat BLOCK_SIZE"
    unfolding n_def by (rule write_len_new_pos)
  then have "uint (p + n) \<le> int BLOCK_SIZE"
    by (rule new_pos_bounds(1) [OF assms(1)])
  then have q: "(if uint p + uint n < 2 ^ 64 then uint p + uint n
                 else uint p + uint n - 2 ^ 64) \<le> int BLOCK_SIZE"
    by (simp add: uint_plus_if' split: if_splits)
  have P: "0 \<le> uint p" "uint p < 2 ^ 64" and N: "0 \<le> uint n"
    using uint_lt2p [of p] by simp_all
  have B: "int BLOCK_SIZE < 2 ^ 31"
    using assms(1) by simp
  have nsmall: "uint n < 2 ^ 63"
    using assms(2) by (simp add: n_def)
  have r: "(if P < 2 ^ 63 then P else P - 2 ^ 64) + N \<le> B"
    if "0 \<le> P" "P < 2 ^ 64" "0 \<le> N" "N < 2 ^ 63" "B < 2 ^ 31"
      "(if P + N < 2 ^ 64 then P + N else P + N - 2 ^ 64) \<le> B"
    for P N B :: int
    using that by (simp split: if_splits)
  have "(if uint p < 2 ^ 63 then uint p else uint p - 2 ^ 64) + uint n \<le> int BLOCK_SIZE"
    by (rule r [OF P N nsmall B q])
  then show ?thesis
    by (simp only: sint64_cases n_def)
qed

lemma alloc_step_block:
  "alloc_step alloc s = Inr s1 \<Longrightarrow>
     i_block (osfs_i s1) = snd alloc \<or> i_block (osfs_i s1) = i_block (osfs_i s)"
  by (auto simp: alloc_step_def split: if_splits)

lemma uint_lt_of_unat_le_INT_MAX:
  assumes "unat (n :: 64 word) \<le> INT_MAX"
  shows "uint n < 2 ^ 63"
proof (rule uint_lt_of_unat_le [OF assms])
  show "INT_MAX < 2 ^ 63"
    by (simp add: INT_MAX_def)
qed

text \<open>
  A write copies inside the block when the length is at most \<open>INT_MAX\<close> or the copy
  succeeds; a longer copy that faults was refused and stored nothing.
\<close>

lemma write_keeps_other_blocks:
  assumes "BLOCK_SIZE < 2 ^ 31" and "0 \<le> sint (pos s)"
    and "uint (i_block (osfs_i s)) * int BLOCK_SIZE < 2 ^ 32"
    and "uint (snd alloc) * int BLOCK_SIZE < 2 ^ 32"
    and "length buf < 2 ^ 63"
    and "INT_MAX < unat (write_len BLOCK_SIZE (pos s) len) \<Longrightarrow> residue = data_blocks s"
    and "a \<notin> block_range BLOCK_SIZE (osfs_i (snd (osfs_write BLOCK_SIZE alloc t1 t2 residue s buf len)))"
  shows "data_blocks (snd (osfs_write BLOCK_SIZE alloc t1 t2 residue s buf len)) a = data_blocks s a"
proof (cases rule: osfs_write_cases [of alloc s BLOCK_SIZE t1 t2 residue buf len])
  case (alloc_failed ret)
  then show ?thesis by simp
next
  case (copy_fault s1)
  define n where "n = write_len BLOCK_SIZE (pos s) len"
  define dst where "dst = data_block BLOCK_SIZE (osfs_i s1) (pos s)"
  have blk: "uint (i_block (osfs_i s1)) * int BLOCK_SIZE < 2 ^ 32"
    using alloc_step_block [OF copy_fault(1)] assms(3,4) by auto
  have res: "snd (osfs_write BLOCK_SIZE alloc t1 t2 residue s buf len)
      = s1\<lparr>data_blocks := fault_bytes residue (data_blocks s) dst n\<rparr>"
    using copy_fault(3) by (simp add: n_def dst_def)
  show ?thesis
  proof (cases "INT_MAX < unat n")
    case True
    then have "residue = data_blocks s"
      using assms(6) by (simp add: n_def)
    then have "fault_bytes residue (data_blocks s) dst n a = data_blocks s a"
      by (simp add: fault_bytes_def)
    then show ?thesis
      by (simp only: res) simp
  next
    case False
    then have "unat n \<le> INT_MAX"
      by simp
    then have "uint n < 2 ^ 63"
      by (rule uint_lt_of_unat_le_INT_MAX)
    then have "sint (pos s) + uint n \<le> int BLOCK_SIZE"
      unfolding n_def by (rule write_len_small [OF assms(1)])
    then have "footprint dst n \<subseteq> block_range BLOCK_SIZE (osfs_i s1)"
      unfolding dst_def by (rule footprint_in_block [OF assms(1) blk assms(2)])
    moreover have "a \<notin> block_range BLOCK_SIZE (osfs_i s1)"
      using assms(7) by (simp add: res block_range_def)
    ultimately have "a \<notin> footprint dst n"
      by blast
    then show ?thesis
      by (simp add: res fault_bytes_def)
  qed
next
  case (written s1)
  define n where "n = write_len BLOCK_SIZE (pos s) len"
  define dst where "dst = data_block BLOCK_SIZE (osfs_i s1) (pos s)"
  have blk: "uint (i_block (osfs_i s1)) * int BLOCK_SIZE < 2 ^ 32"
    using alloc_step_block [OF written(1)] assms(3,4) by auto
  have res: "snd (osfs_write BLOCK_SIZE alloc t1 t2 residue s buf len)
      = update_attrs t1 t2 (store_bytes (data_blocks s) dst buf n) n s1"
    using written(3) by (simp add: n_def dst_def)
  have "unat n \<le> length buf"
    using written(2) by (simp add: n_def)
  then have "uint n < 2 ^ 63"
    using assms(5) by (rule uint_lt_of_unat_le)
  then have "sint (pos s) + uint n \<le> int BLOCK_SIZE"
    unfolding n_def by (rule write_len_small [OF assms(1)])
  then have "footprint dst n \<subseteq> block_range BLOCK_SIZE (osfs_i s1)"
    unfolding dst_def by (rule footprint_in_block [OF assms(1) blk assms(2)])
  moreover have "a \<notin> block_range BLOCK_SIZE (osfs_i s1)"
    using assms(7) by (simp add: res block_range_def update_attrs_fields)
  ultimately have "a \<notin> footprint dst n"
    by blast
  then show ?thesis
    by (simp add: res update_attrs_fields store_bytes_def)
qed

lemma read_loads_from_block:
  assumes "BLOCK_SIZE < 2 ^ 31" and "0 \<le> sint (pos s)"
    and "uint (i_block (osfs_i s)) * int BLOCK_SIZE < 2 ^ 32"
    and "size_ok BLOCK_SIZE s" and "cap < 2 ^ 63"
    and "osfs_read BLOCK_SIZE s cap rlen = (Inr m, bs, s'')"
  shows "bs = load_bytes (data_blocks s) (data_block BLOCK_SIZE (osfs_i s) (pos s)) m
       \<and> footprint (data_block BLOCK_SIZE (osfs_i s) (pos s)) m \<subseteq> block_range BLOCK_SIZE (osfs_i s)"
proof (cases "i_blocks (osfs_i s) \<noteq> 0 \<and> sint (pos s) < uint (i_size (osfs_i s))")
  case False
  then have "osfs_read BLOCK_SIZE s cap rlen = (Inr 0, [], s)"
    by (auto simp: osfs_read_def)
  with assms(6) show ?thesis
    by (simp add: load_bytes_def footprint_def)
next
  case True
  then have al: "i_blocks (osfs_i s) \<noteq> 0" and h2: "sint (pos s) < uint (i_size (osfs_i s))"
    by simp_all
  note r = osfs_read_in_file [OF al h2, of BLOCK_SIZE cap rlen]
  from r assms(6) have fits: "unat (read_len (osfs_i s) (pos s) rlen) \<le> cap"
    and m: "m = read_len (osfs_i s) (pos s) rlen"
    and bs: "bs = load_bytes (data_blocks s) (data_block BLOCK_SIZE (osfs_i s) (pos s)) m"
    by (simp_all split: if_splits)
  note nw = read_success_no_wrap [OF assms(2) h2 fits assms(5)]
  have "footprint (data_block BLOCK_SIZE (osfs_i s) (pos s)) (read_len (osfs_i s) (pos s) rlen)
      \<subseteq> block_range BLOCK_SIZE (osfs_i s)"
    using assms(4)
    by (intro read_footprint_in_block [OF assms(1,3) _ assms(2) h2 nw]) (simp add: size_ok_def)
  with bs m show ?thesis
    by simp
qed

lemma osfs_read_data_blocks:
  "data_blocks (snd (snd (osfs_read BLOCK_SIZE s cap rlen))) = data_blocks s"
  by (cases "copy_to_user cap (data_blocks s) (data_block BLOCK_SIZE (osfs_i s) (pos s))
               (read_len (osfs_i s) (pos s) rlen)")
     (simp_all add: osfs_read_def Let_def)

section \<open>A read after a write\<close>

lemma read_exact_after_write:
  assumes "BLOCK_SIZE < 2 ^ 31" and "length buf < 2 ^ 63"
    and "osfs_write BLOCK_SIZE alloc t1 t2 residue s buf len = (Inr n, s')"
    and "unat n \<le> cap"
  shows "osfs_read BLOCK_SIZE (s'\<lparr>pos := pos s\<rparr>) cap n = (Inr n, take (unat n) buf, s')"
proof (cases rule: osfs_write_cases [of alloc s BLOCK_SIZE t1 t2 residue buf len])
  case (alloc_failed ret)
  with assms(3) show ?thesis by simp
next
  case (copy_fault s1)
  with assms(3) show ?thesis by simp
next
  case (written s1)
  note k = alloc_step_keeps [OF written(1)]
  define dst where "dst = data_block BLOCK_SIZE (osfs_i s1) (pos s)"
  define mem where "mem = store_bytes (data_blocks s) dst buf n"
  from written(3) assms(3) have n: "n = write_len BLOCK_SIZE (pos s) len"
    and s': "s' = update_attrs t1 t2 mem n s1"
    by (simp_all add: mem_def dst_def)
  have fit: "unat n \<le> length buf"
    using written(2) n by simp
  have q: "pos s + n \<le> of_nat BLOCK_SIZE"
    unfolding n by (rule write_len_new_pos)
  note b = new_pos_bounds [OF assms(1) q]
  have pos': "pos s' = pos s + n"
    and mem': "data_blocks s' = mem"
    and blk: "i_block (osfs_i s') = i_block (osfs_i s1)"
    and alloc': "i_blocks (osfs_i s') \<noteq> 0"
    and size': "uint (i_size (osfs_i s')) = max (uint (i_size (osfs_i s))) (uint (pos s + n))"
    using k b alloc_step_allocated [OF written(1)]
    by (simp_all add: s' update_attrs_fields)
  have src: "data_block BLOCK_SIZE (osfs_i s') (pos s) = dst"
    unfolding dst_def by (rule data_block_i_block) (rule blk)
  have nsmall: "uint n < 2 ^ 63"
    using fit assms(2) by (rule uint_lt_of_unat_le)
  have restore: "s'\<lparr>pos := pos s + n\<rparr> = s'"
    using pos' by simp
  show ?thesis
  proof (cases "uint (i_size (osfs_i s')) \<le> sint (pos s)")
    case True
    have "uint (pos s + n) \<le> sint (pos s)"
      using True size' by simp
    then have "uint (pos s + n) \<le> uint (pos s)" and "uint (pos s) < 2 ^ 63"
      by (rule uint_le_sint)+
    with nsmall have "uint n = 0"
      by (simp add: uint_word_ariths mod_pos_pos_trivial)
    then have n0: "n = 0"
      by (simp add: uint_0_iff)
    with True alloc' restore pos' show ?thesis
      by (simp add: osfs_read_def)
  next
    case False
    have "uint (pos s + n) \<le> uint (ucast (i_size (osfs_i s')) :: 64 word)"
      using size' by (simp add: uint_ucast_i_size)
    then have "\<not> pos s + n > ucast (i_size (osfs_i s'))"
      by (simp add: word_le_def not_less)
    then have rl: "read_len (osfs_i s') (pos s) n = n"
      by (simp add: read_len_def)
    show ?thesis
      using False alloc' rl src mem' assms(4) restore
      by (simp add: osfs_read_def copy_to_user_def mem_def load_store_bytes [OF fit])
  qed
qed

lemma read_longer_after_write:
  assumes "BLOCK_SIZE < 2 ^ 31" and "length buf < 2 ^ 63"
    and "osfs_write BLOCK_SIZE alloc t1 t2 residue s buf len = (Inr n, s')"
    and "n \<le> rlen"
    and "osfs_read BLOCK_SIZE (s'\<lparr>pos := pos s\<rparr>) cap rlen = (Inr m, bs, s'')"
  shows "n \<le> m \<and> take (unat n) bs = take (unat n) buf"
proof (cases "n = 0")
  case True
  then show ?thesis by simp
next
  case False
  note w = osfs_write_written [OF assms(1,3)]
  have nsmall: "uint n < 2 ^ 63"
    using w(1) assms(2) by (rule uint_lt_of_unat_le)
  have inside: "sint (pos s) < uint (i_size (osfs_i s'))"
  proof (rule ccontr)
    assume "\<not> sint (pos s) < uint (i_size (osfs_i s'))"
    then have "uint (i_size (osfs_i s')) \<le> sint (pos s)"
      by simp
    moreover have "uint (pos s + n) \<le> uint (i_size (osfs_i s'))"
      using w(5) by (simp add: word_le_def uint_ucast_i_size)
    ultimately have "uint (pos s + n) \<le> sint (pos s)"
      by simp
    then have "uint (pos s + n) \<le> uint (pos s)" and "uint (pos s) < 2 ^ 63"
      by (rule uint_le_sint)+
    with nsmall have "uint n = 0"
      by (simp add: uint_word_ariths mod_pos_pos_trivial)
    with False show False
      by (simp add: uint_0_iff)
  qed
  define st where "st = s'\<lparr>pos := pos s\<rparr>"
  have st: "osfs_i st = osfs_i s'" "pos st = pos s" "data_blocks st = data_blocks s'"
    by (simp_all add: st_def)
  have r: "osfs_read BLOCK_SIZE st cap rlen =
     (if unat (read_len (osfs_i s') (pos s) rlen) \<le> cap
      then (Inr (read_len (osfs_i s') (pos s) rlen),
            load_bytes (data_blocks s') (data_block BLOCK_SIZE (osfs_i s') (pos s))
              (read_len (osfs_i s') (pos s) rlen),
            st\<lparr>pos := pos s + read_len (osfs_i s') (pos s) rlen\<rparr>)
      else (Inl EFAULT, [], st))"
    using osfs_read_in_file [of st BLOCK_SIZE cap rlen] w(4) inside
    by (simp add: st)
  from r assms(5) have m: "m = read_len (osfs_i s') (pos s) rlen"
    and bs: "bs = load_bytes (data_blocks s') (data_block BLOCK_SIZE (osfs_i s') (pos s)) m"
    by (simp_all add: st_def split: if_splits)
  have le: "n \<le> m"
  proof (cases "pos s + rlen > ucast (i_size (osfs_i s'))")
    case True
    then have "m = ucast (i_size (osfs_i s')) - pos s"
      by (simp add: m read_len_def)
    with written_le_read_len [OF nsmall w(5) inside] show ?thesis
      by simp
  next
    case False
    with assms(4) show ?thesis
      by (simp add: m read_len_def)
  qed
  have "take (unat n) bs = load_bytes (data_blocks s') (data_block BLOCK_SIZE (osfs_i s') (pos s)) n"
    unfolding bs by (rule take_load_bytes [OF le])
  also have "\<dots> = take (unat n) buf"
    unfolding w(3) by (rule load_store_bytes [OF w(1)])
  finally show ?thesis
    using le by simp
qed

section \<open>Properties\<close>

text \<open>
  C1. The specification requires that a write never stores more than
  \<open>BLOCK_SIZE - cursor\<close> bytes and that at a cursor at or beyond \<open>BLOCK_SIZE\<close> its length is
  clamped to zero. The code does so at every cursor from 0 to \<open>BLOCK_SIZE\<close>
  (\<open>write_len_in_block\<close>) and not beyond the block (\<open>write_len_past_block\<close>): with
  4096-byte blocks, a write of one byte at cursor 4097 leaves line 85 with the length
  \<open>2 ^ 64 - 1\<close>, not 0, and the write returns \<open>EFAULT\<close> although the byte of the user
  can be loaded.
\<close>

theorem write_past_block_not_clamped:
  "write_len 4096 4097 1 = - 1
   \<and> unat (write_len 4096 4097 1) = 18446744073709551615
   \<and> fst (osfs_write 4096 (0, 7) (5, 0) (6, 0) residue (abc_file\<lparr>pos := 4097\<rparr>) [100] 1)
       = Inl EFAULT"
  by (simp add: osfs_write_def alloc_step_def write_len_def copy_from_user_def abc_file_def
      unat_minus_one64)

text \<open>
  C2. A write and a read touch only the bytes of the block of the file. After a write,
  whatever its outcome, every byte of the memory outside the block of the file is as it
  was before. A read changes no byte of the memory, and the bytes that it delivers are
  loaded from inside the block. This holds for every cursor that is not negative and
  for every requested length, for a file whose size is at most \<open>BLOCK_SIZE\<close> and whose
  block number is one of the Storage Region, with user buffers of less than \<open>2 ^ 63\<close>
  bytes and a kernel whose \<open>copy_from_user\<close> refuses a size above \<open>INT_MAX\<close> without
  storing. At a cursor from 0 to \<open>BLOCK_SIZE\<close> the clamp of lines 84-86 keeps the copy
  inside the block; beyond the block the write asks for more than \<open>2 ^ 63\<close> bytes
  (\<open>write_len_past_block\<close>), and it is that refusal which leaves the memory as it was.
\<close>

theorem accesses_stay_in_block:
  assumes "BLOCK_SIZE < 2 ^ 31" and "0 \<le> sint (pos s)"
    and "uint (i_block (osfs_i s)) * int BLOCK_SIZE < 2 ^ 32"
    and "uint (snd alloc) * int BLOCK_SIZE < 2 ^ 32"
    and "size_ok BLOCK_SIZE s"
    and "length buf < 2 ^ 63" and "cap < 2 ^ 63"
    and "INT_MAX < unat (write_len BLOCK_SIZE (pos s) len) \<longrightarrow> residue = data_blocks s"
  shows "(\<forall>a. a \<notin> block_range BLOCK_SIZE
                   (osfs_i (snd (osfs_write BLOCK_SIZE alloc t1 t2 residue s buf len))) \<longrightarrow>
              data_blocks (snd (osfs_write BLOCK_SIZE alloc t1 t2 residue s buf len)) a
                = data_blocks s a)
       \<and> data_blocks (snd (snd (osfs_read BLOCK_SIZE s cap rlen))) = data_blocks s
       \<and> (\<forall>m bs s''. osfs_read BLOCK_SIZE s cap rlen = (Inr m, bs, s'') \<longrightarrow>
              bs = load_bytes (data_blocks s) (data_block BLOCK_SIZE (osfs_i s) (pos s)) m
            \<and> footprint (data_block BLOCK_SIZE (osfs_i s) (pos s)) m
                 \<subseteq> block_range BLOCK_SIZE (osfs_i s))"
proof (intro conjI allI impI)
  fix a
  assume outside: "a \<notin> block_range BLOCK_SIZE
            (osfs_i (snd (osfs_write BLOCK_SIZE alloc t1 t2 residue s buf len)))"
  show "data_blocks (snd (osfs_write BLOCK_SIZE alloc t1 t2 residue s buf len)) a
      = data_blocks s a"
  proof (rule write_keeps_other_blocks [OF assms(1,2,3,4,6)])
    show "residue = data_blocks s" if "INT_MAX < unat (write_len BLOCK_SIZE (pos s) len)"
      using that assms(8) by simp
    show "a \<notin> block_range BLOCK_SIZE
            (osfs_i (snd (osfs_write BLOCK_SIZE alloc t1 t2 residue s buf len)))"
      by (rule outside)
  qed
next
  show "data_blocks (snd (snd (osfs_read BLOCK_SIZE s cap rlen))) = data_blocks s"
    by (rule osfs_read_data_blocks)
next
  fix m bs s''
  assume r: "osfs_read BLOCK_SIZE s cap rlen = (Inr m, bs, s'')"
  note l = read_loads_from_block [OF assms(1,2,3,5,7) r]
  from l show "bs = load_bytes (data_blocks s) (data_block BLOCK_SIZE (osfs_i s) (pos s)) m"
    by (rule conjunct1)
  from l show "footprint (data_block BLOCK_SIZE (osfs_i s) (pos s)) m
      \<subseteq> block_range BLOCK_SIZE (osfs_i s)"
    by (rule conjunct2)
qed

theorem accesses_stay_in_block_witness:
  "data_blocks
     (snd (osfs_write 4096 (0, 7) (5, 0) (6, 0) (data_blocks (abc_file\<lparr>pos := 4097\<rparr>))
        (abc_file\<lparr>pos := 4097\<rparr>) [100] 1)) 32769
     = data_blocks (abc_file\<lparr>pos := 4097\<rparr>) 32769
   \<and> data_blocks (snd (osfs_write 4096 (0, 7) (5, 0) (6, 0) (\<lambda>a. 0) fresh_file [97, 98, 99] 3))
       28671 = data_blocks fresh_file 28671
   \<and> data_blocks (snd (snd (osfs_read 4096 (abc_file\<lparr>pos := 1\<rparr>) 10 100)))
       = data_blocks (abc_file\<lparr>pos := 1\<rparr>)
   \<and> [98, 99] = load_bytes (data_blocks (abc_file\<lparr>pos := 1\<rparr>))
         (data_block 4096 (osfs_i (abc_file\<lparr>pos := 1\<rparr>)) (pos (abc_file\<lparr>pos := 1\<rparr>))) 2
   \<and> footprint (data_block 4096 (osfs_i (abc_file\<lparr>pos := 1\<rparr>)) (pos (abc_file\<lparr>pos := 1\<rparr>))) 2
         \<subseteq> block_range 4096 (osfs_i (abc_file\<lparr>pos := 1\<rparr>))"
proof -
  have B: "(4096 :: nat) < 2 ^ 31"
    by simp
  have al: "uint (snd (0 :: int, 7 :: u32)) * int 4096 < 2 ^ 32"
    by simp
  have buf1: "length [100 :: byte] < 2 ^ 63" and buf3: "length [97, 98, 99 :: byte] < 2 ^ 63"
    and cap: "(10 :: nat) < 2 ^ 63"
    by simp_all
  have p1: "0 \<le> sint (pos (abc_file\<lparr>pos := 4097\<rparr>))"
    and b1: "uint (i_block (osfs_i (abc_file\<lparr>pos := 4097\<rparr>))) * int 4096 < 2 ^ 32"
    and z1: "size_ok 4096 (abc_file\<lparr>pos := 4097\<rparr>)"
    by (simp_all add: abc_file_def size_ok_def)
  have r1: "INT_MAX < unat (write_len 4096 (pos (abc_file\<lparr>pos := 4097\<rparr>)) 1) \<longrightarrow>
      data_blocks (abc_file\<lparr>pos := 4097\<rparr>) = data_blocks (abc_file\<lparr>pos := 4097\<rparr>)"
    by simp
  have o1: "32769 \<notin> block_range 4096
      (osfs_i (snd (osfs_write 4096 (0, 7) (5, 0) (6, 0) (data_blocks (abc_file\<lparr>pos := 4097\<rparr>))
        (abc_file\<lparr>pos := 4097\<rparr>) [100] 1)))"
    by (simp add: osfs_write_def alloc_step_def write_len_def copy_from_user_def abc_file_def
        block_range_def unat_minus_one64)
  note past = accesses_stay_in_block [OF B p1 b1 al z1 buf1 cap r1,
      where ?t1.0 = "(5, 0)" and ?t2.0 = "(6, 0)", THEN conjunct1, THEN spec, THEN mp, OF o1]
  have p2: "0 \<le> sint (pos fresh_file)"
    and b2: "uint (i_block (osfs_i fresh_file)) * int 4096 < 2 ^ 32"
    and z2: "size_ok 4096 fresh_file"
    by (simp_all add: fresh_file_def fresh_inode_def size_ok_def)
  have r2: "INT_MAX < unat (write_len 4096 (pos fresh_file) 3) \<longrightarrow>
      (\<lambda>a. 0) = data_blocks fresh_file"
    by (simp add: write_len_def fresh_file_def INT_MAX_def)
  have o2: "28671 \<notin> block_range 4096
      (osfs_i (snd (osfs_write 4096 (0, 7) (5, 0) (6, 0) (\<lambda>a. 0) fresh_file [97, 98, 99] 3)))"
    by (simp add: write_abc block_range_def abc_file_def)
  note inside = accesses_stay_in_block [OF B p2 b2 al z2 buf3 cap r2,
      where ?t1.0 = "(5, 0)" and ?t2.0 = "(6, 0)", THEN conjunct1, THEN spec, THEN mp, OF o2]
  have p3: "0 \<le> sint (pos (abc_file\<lparr>pos := 1\<rparr>))"
    and b3: "uint (i_block (osfs_i (abc_file\<lparr>pos := 1\<rparr>))) * int 4096 < 2 ^ 32"
    and z3: "size_ok 4096 (abc_file\<lparr>pos := 1\<rparr>)"
    by (simp_all add: abc_file_def size_ok_def)
  have r3: "INT_MAX < unat (write_len 4096 (pos (abc_file\<lparr>pos := 1\<rparr>)) 1) \<longrightarrow>
      (\<lambda>a. 0) = data_blocks (abc_file\<lparr>pos := 1\<rparr>)"
    by (simp add: write_len_def abc_file_def INT_MAX_def)
  note rd = accesses_stay_in_block [OF B p3 b3 al z3 buf1 cap r3, where rlen = 100]
  note unchanged = rd [THEN conjunct2, THEN conjunct1]
  note loaded = rd [THEN conjunct2, THEN conjunct2, THEN spec, THEN spec, THEN spec,
      THEN mp, OF read_abc]
  show ?thesis
    by (intro conjI)
      (rule past, rule inside, rule unchanged, rule loaded [THEN conjunct1],
        rule loaded [THEN conjunct2])
qed

text \<open>
  C3. The invariant \<open>0 \<le> i_size \<le> BLOCK_SIZE\<close> of the File Record is preserved by every
  write and every read, whatever their outcome, for every cursor, length and user
  buffer. (\<open>i_size\<close> is unsigned, so only the upper bound is stated.)
\<close>

theorem size_invariant_preserved:
  assumes "BLOCK_SIZE < 2 ^ 31" and "size_ok BLOCK_SIZE s"
  shows "size_ok BLOCK_SIZE (snd (osfs_write BLOCK_SIZE alloc t1 t2 residue s buf len))
       \<and> size_ok BLOCK_SIZE (snd (snd (osfs_read BLOCK_SIZE s cap rlen)))"
proof
  show "size_ok BLOCK_SIZE (snd (osfs_write BLOCK_SIZE alloc t1 t2 residue s buf len))"
  proof (cases rule: osfs_write_cases [of alloc s BLOCK_SIZE t1 t2 residue buf len])
    case (alloc_failed ret)
    with assms(2) show ?thesis by simp
  next
    case (copy_fault s1)
    with assms(2) alloc_step_keeps [OF copy_fault(1)] show ?thesis
      by (simp add: size_ok_def)
  next
    case (written s1)
    note k = alloc_step_keeps [OF written(1)]
    have "pos s + write_len BLOCK_SIZE (pos s) len \<le> of_nat BLOCK_SIZE"
      by (rule write_len_new_pos)
    note b = new_pos_bounds [OF assms(1) this]
    show ?thesis
      using assms(2) k b written(3)
      by (simp add: size_ok_def update_attrs_fields)
  qed
  show "size_ok BLOCK_SIZE (snd (snd (osfs_read BLOCK_SIZE s cap rlen)))"
    using assms(2) by (simp add: size_ok_def osfs_read_osfs_i)
qed

theorem size_invariant_preserved_witness:
  "size_ok 4096 (snd (osfs_write 4096 (0, 7) (5, 0) (6, 0) (\<lambda>a. 0) fresh_file [97, 98, 99] 3))
   \<and> size_ok 4096 (snd (snd (osfs_read 4096 fresh_file 10 10)))"
proof -
  have h1: "(4096 :: nat) < 2 ^ 31"
    by simp
  have h2: "size_ok 4096 fresh_file"
    by (simp add: size_ok_def fresh_file_def fresh_inode_def)
  show ?thesis
    by (rule size_invariant_preserved [OF h1 h2])
qed

text \<open>
  C4. After a successful write of \<open>n\<close> bytes, a read at the cursor where the write
  started that asks for \<open>n\<close> bytes and has room for them returns \<open>n\<close>, delivers the first
  \<open>n\<close> bytes of the written buffer and leaves the cursor where the write left it. A read
  there that asks for \<open>n\<close> bytes or more and succeeds returns at least \<open>n\<close> bytes, and
  the first \<open>n\<close> of them are the written ones. This holds for every state and every
  cursor; the user buffer of the write is smaller than \<open>2 ^ 63\<close> bytes.
\<close>

theorem write_read_round_trip:
  assumes "BLOCK_SIZE < 2 ^ 31" and "length buf < 2 ^ 63"
    and "osfs_write BLOCK_SIZE alloc t1 t2 residue s buf len = (Inr n, s')"
  shows "(unat n \<le> cap \<longrightarrow>
            osfs_read BLOCK_SIZE (s'\<lparr>pos := pos s\<rparr>) cap n = (Inr n, take (unat n) buf, s'))
       \<and> (n \<le> rlen
            \<and> osfs_read BLOCK_SIZE (s'\<lparr>pos := pos s\<rparr>) cap' rlen = (Inr m, bs, s'') \<longrightarrow>
            n \<le> m \<and> take (unat n) bs = take (unat n) buf)"
  using read_exact_after_write [OF assms, of cap]
    read_longer_after_write [OF assms, of rlen cap' m bs s'']
  by blast

theorem write_read_round_trip_witness:
  "osfs_read 4096 (abc_file\<lparr>pos := pos fresh_file\<rparr>) 10 3
     = (Inr 3, take (unat (3 :: size_t)) [97, 98, 99], abc_file)
   \<and> (3 :: size_t) \<le> 3
   \<and> take (unat (3 :: size_t)) [97, 98, 99] = take (unat (3 :: size_t)) [97, 98, 99 :: byte]"
proof -
  have h1: "(4096 :: nat) < 2 ^ 31"
    by simp
  have h2: "length [97, 98, 99 :: byte] < 2 ^ 63"
    by simp
  have h4: "unat (3 :: size_t) \<le> 10"
    by simp
  have h5: "(3 :: size_t) \<le> 100
      \<and> osfs_read 4096 (abc_file\<lparr>pos := pos fresh_file\<rparr>) 10 100 = (Inr 3, [97, 98, 99], abc_file)"
    using read_abc_again by simp
  note exact = write_read_round_trip [OF h1 h2 write_abc, where cap = 10,
      THEN conjunct1, THEN mp, OF h4]
  note longer = write_read_round_trip [OF h1 h2 write_abc,
      where rlen = 100 and cap' = 10 and m = 3 and bs = "[97, 98, 99]" and s'' = abc_file,
      THEN conjunct2, THEN mp, OF h5]
  show ?thesis
    by (intro conjI) (rule exact, rule longer [THEN conjunct1], rule longer [THEN conjunct2])
qed

text \<open>
  C5. For a file that has its block: a read at a cursor at or beyond \<open>i_size\<close> returns 0
  and copies nothing. At a cursor from 0 to below \<open>i_size\<close>, a read whose cursor and
  length do not wrap in 64 bits copies exactly
  \<open>min(requested length, i_size - cursor)\<close> bytes, the bytes of the block from the
  cursor on, returns that count and advances the cursor by it, or faults with \<open>EFAULT\<close>
  and an unchanged cursor when the user buffer has no room for them. For every requested
  length, no read into a user buffer of less than \<open>2 ^ 63\<close> bytes returns another count.
\<close>

theorem read_clips_to_size:
  assumes "i_blocks (osfs_i s) \<noteq> 0"
  shows "(uint (i_size (osfs_i s)) \<le> sint (pos s) \<longrightarrow>
            osfs_read BLOCK_SIZE s cap len = (Inr 0, [], s))
     \<and> (0 \<le> sint (pos s) \<and> sint (pos s) < uint (i_size (osfs_i s))
          \<and> uint (pos s) + uint len < 2 ^ 64 \<longrightarrow>
           (let n = read_len (osfs_i s) (pos s) len in
              uint n = min (uint len) (uint (i_size (osfs_i s)) - sint (pos s))
            \<and> sint (pos s + n) = sint (pos s) + uint n
            \<and> osfs_read BLOCK_SIZE s cap len =
                (if unat n \<le> cap
                 then (Inr n,
                       load_bytes (data_blocks s) (data_block BLOCK_SIZE (osfs_i s) (pos s)) n,
                       s\<lparr>pos := pos s + n\<rparr>)
                 else (Inl EFAULT, [], s))))
     \<and> (0 \<le> sint (pos s) \<and> sint (pos s) < uint (i_size (osfs_i s)) \<and> cap < 2 ^ 63 \<longrightarrow>
           (case osfs_read BLOCK_SIZE s cap len of
              (Inl e, bs, s') \<Rightarrow> e = EFAULT \<and> s' = s
            | (Inr n, bs, s') \<Rightarrow>
                uint n = min (uint len) (uint (i_size (osfs_i s)) - sint (pos s))
              \<and> length bs = unat n \<and> s' = s\<lparr>pos := pos s + n\<rparr>
              \<and> sint (pos s') = sint (pos s) + uint n))"
proof (intro conjI impI)
  assume "uint (i_size (osfs_i s)) \<le> sint (pos s)"
  then show "osfs_read BLOCK_SIZE s cap len = (Inr 0, [], s)"
    by (simp add: osfs_read_def)
next
  assume h: "0 \<le> sint (pos s) \<and> sint (pos s) < uint (i_size (osfs_i s))
          \<and> uint (pos s) + uint len < 2 ^ 64"
  then have h1: "0 \<le> sint (pos s)" and h2: "sint (pos s) < uint (i_size (osfs_i s))"
    and h3: "uint (pos s) + uint len < 2 ^ 64"
    by simp_all
  show "let n = read_len (osfs_i s) (pos s) len in
              uint n = min (uint len) (uint (i_size (osfs_i s)) - sint (pos s))
            \<and> sint (pos s + n) = sint (pos s) + uint n
            \<and> osfs_read BLOCK_SIZE s cap len =
                (if unat n \<le> cap
                 then (Inr n,
                       load_bytes (data_blocks s) (data_block BLOCK_SIZE (osfs_i s) (pos s)) n,
                       s\<lparr>pos := pos s + n\<rparr>)
                 else (Inl EFAULT, [], s))"
    unfolding Let_def
    using read_len_min [OF h1 h2 h3] sint_new_pos_read [OF h1 h2 h3]
      osfs_read_in_file [OF assms h2, of BLOCK_SIZE cap len]
    by simp
next
  assume h: "0 \<le> sint (pos s) \<and> sint (pos s) < uint (i_size (osfs_i s)) \<and> cap < 2 ^ 63"
  then have h1: "0 \<le> sint (pos s)" and h2: "sint (pos s) < uint (i_size (osfs_i s))"
    and h3: "cap < 2 ^ 63"
    by simp_all
  note r = osfs_read_in_file [OF assms h2, of BLOCK_SIZE cap len]
  show "case osfs_read BLOCK_SIZE s cap len of
              (Inl e, bs, s') \<Rightarrow> e = EFAULT \<and> s' = s
            | (Inr n, bs, s') \<Rightarrow>
                uint n = min (uint len) (uint (i_size (osfs_i s)) - sint (pos s))
              \<and> length bs = unat n \<and> s' = s\<lparr>pos := pos s + n\<rparr>
              \<and> sint (pos s') = sint (pos s) + uint n"
  proof (cases "unat (read_len (osfs_i s) (pos s) len) \<le> cap")
    case True
    note nw = read_success_no_wrap [OF h1 h2 True h3]
    show ?thesis
      using True r read_len_min [OF h1 h2 nw] sint_new_pos_read [OF h1 h2 nw]
      by (simp add: load_bytes_def)
  next
    case False
    with r show ?thesis
      by simp
  qed
qed

theorem read_clips_to_size_witness:
  "osfs_read 4096 (abc_file\<lparr>pos := 1\<rparr>) 10 100 = (Inr 2, [98, 99], abc_file\<lparr>pos := 3\<rparr>)
   \<and> (let n = read_len (osfs_i (abc_file\<lparr>pos := 1\<rparr>)) (pos (abc_file\<lparr>pos := 1\<rparr>)) 100 in
        uint n = min (uint (100 :: size_t))
                   (uint (i_size (osfs_i (abc_file\<lparr>pos := 1\<rparr>))) - sint (pos (abc_file\<lparr>pos := 1\<rparr>)))
      \<and> sint (pos (abc_file\<lparr>pos := 1\<rparr>) + n) = sint (pos (abc_file\<lparr>pos := 1\<rparr>)) + uint n
      \<and> osfs_read 4096 (abc_file\<lparr>pos := 1\<rparr>) 10 100 =
          (if unat n \<le> 10
           then (Inr n,
                 load_bytes (data_blocks (abc_file\<lparr>pos := 1\<rparr>))
                   (data_block 4096 (osfs_i (abc_file\<lparr>pos := 1\<rparr>)) (pos (abc_file\<lparr>pos := 1\<rparr>))) n,
                 abc_file\<lparr>pos := 1, pos := pos (abc_file\<lparr>pos := 1\<rparr>) + n\<rparr>)
           else (Inl EFAULT, [], abc_file\<lparr>pos := 1\<rparr>)))
   \<and> (case osfs_read 4096 (abc_file\<lparr>pos := 1\<rparr>) 10 100 of
        (Inl e, bs, s') \<Rightarrow> e = EFAULT \<and> s' = abc_file\<lparr>pos := 1\<rparr>
      | (Inr n, bs, s') \<Rightarrow>
          uint n = min (uint (100 :: size_t))
                     (uint (i_size (osfs_i (abc_file\<lparr>pos := 1\<rparr>))) - sint (pos (abc_file\<lparr>pos := 1\<rparr>)))
        \<and> length bs = unat n \<and> s' = abc_file\<lparr>pos := 1, pos := pos (abc_file\<lparr>pos := 1\<rparr>) + n\<rparr>
        \<and> sint (pos s') = sint (pos (abc_file\<lparr>pos := 1\<rparr>)) + uint n)
   \<and> osfs_read 4096 abc_file 10 100 = (Inr 0, [], abc_file)"
proof -
  have a1: "i_blocks (osfs_i (abc_file\<lparr>pos := 1\<rparr>)) \<noteq> 0"
    by (simp add: abc_file_def)
  have a2: "0 \<le> sint (pos (abc_file\<lparr>pos := 1\<rparr>))
      \<and> sint (pos (abc_file\<lparr>pos := 1\<rparr>)) < uint (i_size (osfs_i (abc_file\<lparr>pos := 1\<rparr>)))
      \<and> uint (pos (abc_file\<lparr>pos := 1\<rparr>)) + uint (100 :: size_t) < 2 ^ 64"
    by (simp add: abc_file_def)
  have a3: "0 \<le> sint (pos (abc_file\<lparr>pos := 1\<rparr>))
      \<and> sint (pos (abc_file\<lparr>pos := 1\<rparr>)) < uint (i_size (osfs_i (abc_file\<lparr>pos := 1\<rparr>)))
      \<and> (10 :: nat) < 2 ^ 63"
    by (simp add: abc_file_def)
  have b1: "i_blocks (osfs_i abc_file) \<noteq> 0"
    by (simp add: abc_file_def)
  have b2: "uint (i_size (osfs_i abc_file)) \<le> sint (pos abc_file)"
    by (simp add: abc_file_def)
  note inside = read_clips_to_size [OF a1, of 4096 10 100, THEN conjunct2, THEN conjunct1,
      THEN mp, OF a2]
  note any_length = read_clips_to_size [OF a1, of 4096 10 100, THEN conjunct2, THEN conjunct2,
      THEN mp, OF a3]
  note at_end = read_clips_to_size [OF b1, of 4096 10 100, THEN conjunct1, THEN mp, OF b2]
  show ?thesis
    by (intro conjI) (rule read_abc, rule inside, rule any_length, rule at_end)
qed

text \<open>
  C6. A read of a file with \<open>i_blocks = 0\<close> returns 0 at every cursor and for every
  requested length; it is not an error, nothing is copied and the state is unchanged.
\<close>

theorem read_unallocated:
  "i_blocks (osfs_i s) = 0 \<Longrightarrow> osfs_read BLOCK_SIZE s cap len = (Inr 0, [], s)"
  by (simp add: osfs_read_def)

theorem read_unallocated_witness:
  "osfs_read 4096 fresh_file 10 10 = (Inr 0, [], fresh_file)"
proof -
  have h: "i_blocks (osfs_i fresh_file) = 0"
    by (simp add: fresh_file_def fresh_inode_def)
  show ?thesis
    by (rule read_unallocated [OF h])
qed

text \<open>
  C7. When the allocator fails in a write to a file with \<open>i_blocks = 0\<close>, the write
  returns the allocator's error and leaves the whole state, the cursor included, as it
  was; a read that follows returns 0.
\<close>

theorem write_allocation_failed:
  assumes "i_blocks (osfs_i s) = 0" and "fst alloc \<noteq> 0"
  shows "osfs_write BLOCK_SIZE alloc t1 t2 residue s buf len = (Inl (AllocationFailed (fst alloc)), s)
     \<and> osfs_read BLOCK_SIZE (snd (osfs_write BLOCK_SIZE alloc t1 t2 residue s buf len)) cap rlen
           = (Inr 0, [], s)"
  using assms by (simp add: osfs_write_def alloc_step_def osfs_read_def)

theorem write_allocation_failed_witness:
  "osfs_write 4096 (-28, 0) (1, 0) (1, 0) (\<lambda>a. 0) fresh_file [1, 2, 3] 3
     = (Inl (AllocationFailed (-28)), fresh_file)
   \<and> osfs_read 4096 (snd (osfs_write 4096 (-28, 0) (1, 0) (1, 0) (\<lambda>a. 0) fresh_file [1, 2, 3] 3)) 10 10
     = (Inr 0, [], fresh_file)"
proof -
  have h1: "i_blocks (osfs_i fresh_file) = 0"
    by (simp add: fresh_file_def fresh_inode_def)
  have h2: "fst (-28 :: int, 0 :: u32) \<noteq> 0"
    by simp
  from write_allocation_failed [OF h1 h2, of 4096 "(1, 0)" "(1, 0)" "\<lambda>a. 0" "[1, 2, 3]" 3 10 10]
  show ?thesis
    unfolding fst_conv .
qed

text \<open>
  C8. When \<open>copy_from_user\<close> faults, the write returns \<open>EFAULT\<close>. A block allocated
  earlier in the same call stays: \<open>i_blocks\<close> is 1 and \<open>i_block\<close> is the allocated block;
  the rest of the File Record, the size of the inode, its dirty mark and the cursor are
  as before. The File Record of a file that had its block is unchanged.
\<close>

theorem write_copy_fault:
  assumes "length buf < unat (write_len BLOCK_SIZE (pos s) len)"
  shows "(i_blocks (osfs_i s) = 0 \<and> fst alloc = 0 \<longrightarrow>
           (let (r, s') = osfs_write BLOCK_SIZE alloc t1 t2 residue s buf len in
              r = Inl EFAULT
            \<and> osfs_i s' = (osfs_i s)\<lparr>i_block := snd alloc, i_blocks := 1\<rparr>
            \<and> inode_i_size s' = inode_i_size s \<and> inode_dirty s' = inode_dirty s
            \<and> pos s' = pos s))
      \<and> (i_blocks (osfs_i s) \<noteq> 0 \<longrightarrow>
           (let (r, s') = osfs_write BLOCK_SIZE alloc t1 t2 residue s buf len in
              r = Inl EFAULT \<and> osfs_i s' = osfs_i s
            \<and> inode_i_size s' = inode_i_size s \<and> inode_dirty s' = inode_dirty s
            \<and> pos s' = pos s))"
  using assms by (simp add: osfs_write_def alloc_step_def copy_from_user_def)

theorem write_copy_fault_witness:
  "(let (r, s') = osfs_write 4096 (0, 7) (1, 0) (1, 0) (\<lambda>a. 0) fresh_file [1, 2] 3 in
      r = Inl EFAULT
    \<and> osfs_i s' = (osfs_i fresh_file)\<lparr>i_block := snd (0 :: int, 7 :: u32), i_blocks := 1\<rparr>
    \<and> inode_i_size s' = inode_i_size fresh_file \<and> inode_dirty s' = inode_dirty fresh_file
    \<and> pos s' = pos fresh_file)
   \<and> (let (r, s') = osfs_write 4096 (0, 7) (1, 0) (1, 0) (\<lambda>a. 0) abc_file [1, 2] 3 in
      r = Inl EFAULT \<and> osfs_i s' = osfs_i abc_file
    \<and> inode_i_size s' = inode_i_size abc_file \<and> inode_dirty s' = inode_dirty abc_file
    \<and> pos s' = pos abc_file)"
proof -
  have h1: "length [1, 2 :: byte] < unat (write_len 4096 (pos fresh_file) 3)"
    by (simp add: write_len_def fresh_file_def)
  have h2: "i_blocks (osfs_i fresh_file) = 0 \<and> fst (0 :: int, 7 :: u32) = 0"
    by (simp add: fresh_file_def fresh_inode_def)
  have k1: "length [1, 2 :: byte] < unat (write_len 4096 (pos abc_file) 3)"
    by (simp add: write_len_def abc_file_def)
  have k2: "i_blocks (osfs_i abc_file) \<noteq> 0"
    by (simp add: abc_file_def)
  note fresh = write_copy_fault [OF h1, of "(0, 7)" "(1, 0)" "(1, 0)" "\<lambda>a. 0",
      THEN conjunct1, THEN mp, OF h2]
  note had_block = write_copy_fault [OF k1, of "(0, 7)" "(1, 0)" "(1, 0)" "\<lambda>a. 0",
      THEN conjunct2, THEN mp, OF k2]
  show ?thesis
    by (intro conjI) (rule fresh, rule had_block)
qed

text \<open>
  C9. A successful write advances the cursor by the returned count. When the new cursor
  exceeds \<open>i_size\<close>, \<open>i_size\<close> becomes the new cursor; otherwise \<open>i_size\<close> is unchanged.
  So \<open>i_size\<close> never decreases.
\<close>

theorem write_size_monotone:
  assumes "BLOCK_SIZE < 2 ^ 31"
    and "osfs_write BLOCK_SIZE alloc t1 t2 residue s buf len = (Inr n, s')"
  shows "pos s' = pos s + n
     \<and> (if uint (i_size (osfs_i s)) < sint (pos s')
        then uint (i_size (osfs_i s')) = sint (pos s')
        else i_size (osfs_i s') = i_size (osfs_i s))
     \<and> i_size (osfs_i s) \<le> i_size (osfs_i s')"
proof (cases rule: osfs_write_cases [of alloc s BLOCK_SIZE t1 t2 residue buf len])
  case (alloc_failed ret)
  with assms(2) show ?thesis by simp
next
  case (copy_fault s1)
  with assms(2) show ?thesis by simp
next
  case (written s1)
  note k = alloc_step_keeps [OF written(1)]
  from written(3) assms(2) have n: "n = write_len BLOCK_SIZE (pos s) len"
    and s': "s' = update_attrs t1 t2
            (store_bytes (data_blocks s) (data_block BLOCK_SIZE (osfs_i s1) (pos s)) buf n) n s1"
    by simp_all
  have "pos s + n \<le> of_nat BLOCK_SIZE"
    unfolding n by (rule write_len_new_pos)
  note b = new_pos_bounds [OF assms(1) this]
  show ?thesis
    unfolding s' using k b
    by (simp add: update_attrs_fields word_le_def)
qed

theorem write_size_monotone_witness:
  "pos abc_file = pos fresh_file + 3
   \<and> (if uint (i_size (osfs_i fresh_file)) < sint (pos abc_file)
      then uint (i_size (osfs_i abc_file)) = sint (pos abc_file)
      else i_size (osfs_i abc_file) = i_size (osfs_i fresh_file))
   \<and> i_size (osfs_i fresh_file) \<le> i_size (osfs_i abc_file)"
proof -
  have h1: "(4096 :: nat) < 2 ^ 31"
    by simp
  show ?thesis
    by (rule write_size_monotone [OF h1 write_abc])
qed

text \<open>
  C10. A write of length 0 to a file with \<open>i_blocks = 0\<close>, at a cursor from 0 to
  \<open>BLOCK_SIZE\<close> and with a block to allocate, returns 0 and is no no-op: the block is
  recorded, \<open>i_blocks\<close> is 1, both timestamps are set and the inode is marked dirty.
  The cursor and the memory are unchanged.
\<close>

theorem zero_length_write_allocates:
  assumes "BLOCK_SIZE < 2 ^ 31" and "i_blocks (osfs_i s) = 0" and "fst alloc = 0"
    and "0 \<le> sint (pos s)" and "sint (pos s) \<le> int BLOCK_SIZE"
  shows "let (r, s') = osfs_write BLOCK_SIZE alloc t1 t2 residue s buf 0 in
           r = Inr 0 \<and> i_blocks (osfs_i s') = 1 \<and> i_block (osfs_i s') = snd alloc
         \<and> i_mtime (osfs_i s') = t1 \<and> i_ctime (osfs_i s') = t2 \<and> inode_dirty s'
         \<and> pos s' = pos s \<and> data_blocks s' = data_blocks s"
proof -
  have "uint (pos s) \<le> uint (of_nat BLOCK_SIZE :: 64 word)"
    using assms(1,5) sint_nonneg_uint [OF assms(4)]
    by (simp add: uint_of_nat_BLOCK_SIZE)
  then have le: "pos s \<le> of_nat BLOCK_SIZE"
    by (simp add: word_le_def)
  then have wl: "write_len BLOCK_SIZE (pos s) 0 = 0"
    by (auto simp: write_len_def)
  have cp: "copy_from_user residue m d buf 0 = Inr m" for m d
    by (auto simp: copy_from_user_def store_bytes_def footprint_def fun_eq_iff)
  show ?thesis
    using assms(2,3) wl
    by (simp add: osfs_write_def alloc_step_def cp update_attrs_def Let_def)
qed

theorem zero_length_write_allocates_witness:
  "let (r, s') = osfs_write 4096 (0, 7) (5, 0) (6, 0) (\<lambda>a. 0) fresh_file [] 0 in
     r = Inr 0 \<and> i_blocks (osfs_i s') = 1 \<and> i_block (osfs_i s') = snd (0 :: int, 7 :: u32)
   \<and> i_mtime (osfs_i s') = (5, 0) \<and> i_ctime (osfs_i s') = (6, 0) \<and> inode_dirty s'
   \<and> pos s' = pos fresh_file \<and> data_blocks s' = data_blocks fresh_file"
proof -
  have h1: "(4096 :: nat) < 2 ^ 31"
    by simp
  have h2: "i_blocks (osfs_i fresh_file) = 0"
    by (simp add: fresh_file_def fresh_inode_def)
  have h3: "fst (0 :: int, 7 :: u32) = 0"
    by simp
  have h4: "0 \<le> sint (pos fresh_file)" and h5: "sint (pos fresh_file) \<le> int 4096"
    by (simp_all add: fresh_file_def)
  show ?thesis
    by (rule zero_length_write_allocates [OF h1 h2 h3 h4 h5])
qed

end
